theory Spec2Isabelle
  imports Main "HOL-Library.Word" "HOL-Library.AList"
begin

section \<open>The Auth component (src/components/Auth/Auth.js)\<close>

text \<open>
  The component is a React function component: each render reads the mode flag from
  the Redux store and the form fields from component state, and builds the handlers as
  closures over the values read. The model makes every effect of a handler explicit:
  the store, the component state, local storage, the router, the identity provider and
  the console are fields of one \<open>world\<close> record that a handler takes and returns.
\<close>

subsection \<open>Strings\<close>

text \<open>
  A JavaScript string is a sequence of UTF-16 code units; \<open>s.length\<close> counts code
  units, \<open>!s\<close> holds exactly of the empty string, and a regular expression without the
  \<open>u\<close> flag reads one code unit at a time. Property keys, storage keys, routes and the
  messages written in the source are ASCII literals and are kept as HOL strings.
\<close>

type_synonym jsstring = "16 word list"

subsection \<open>The regular expression of the email check\<close>

text \<open>
  \<open>/\S+@\S+\.\S+/\<close> is built from three kinds of term: a class or literal matching one
  code unit, such a term under the greedy quantifier \<open>+\<close>, and concatenation.
  \<open>\S\<close> is the complement of \<open>\s\<close>, which ECMAScript defines as WhiteSpace and
  LineTerminator: TAB, LF, VT, FF, CR, SP, NBSP, U+1680, U+2000 to U+200A, LS, PS,
  U+202F, U+205F, U+3000 and U+FEFF.
\<close>

definition is_space :: "16 word \<Rightarrow> bool" where
  "is_space c \<longleftrightarrow>
     (0x0009 \<le> c \<and> c \<le> 0x000D) \<or> c = 0x0020 \<or> c = 0x00A0 \<or> c = 0x1680 \<or>
     (0x2000 \<le> c \<and> c \<le> 0x200A) \<or> c = 0x2028 \<or> c = 0x2029 \<or> c = 0x202F \<or>
     c = 0x205F \<or> c = 0x3000 \<or> c = 0xFEFF"

datatype atom = NonSpace | Lit "16 word"

fun atom_ok :: "atom \<Rightarrow> 16 word \<Rightarrow> bool" where
  "atom_ok NonSpace c = (\<not> is_space c)"
| "atom_ok (Lit d) c = (c = d)"

datatype regex = One atom | Plus atom | Seq regex regex

text \<open>
  The matcher is the backtracking one: \<open>rests r s\<close> lists, in the order the engine
  tries them, the remainders of \<open>s\<close> after each way of matching \<open>r\<close> at its start.
  A greedy \<open>+\<close> offers the longest repetition first.
\<close>

fun plus_rests :: "atom \<Rightarrow> jsstring \<Rightarrow> jsstring list" where
  "plus_rests a [] = []"
| "plus_rests a (c # cs) = (if atom_ok a c then plus_rests a cs @ [cs] else [])"

fun rests :: "regex \<Rightarrow> jsstring \<Rightarrow> jsstring list" where
  "rests (One a) [] = []"
| "rests (One a) (c # cs) = (if atom_ok a c then [cs] else [])"
| "rests (Plus a) s = plus_rests a s"
| "rests (Seq r1 r2) s = concat (map (rests r2) (rests r1 s))"

text \<open>
  \<open>RegExp.prototype.test\<close> on a pattern without the \<open>g\<close> and \<open>y\<close> flags tries every
  start index from 0 to the length of the string and answers whether one of them
  matches.
\<close>

fun regex_test :: "regex \<Rightarrow> jsstring \<Rightarrow> bool" where
  "regex_test r [] = (rests r [] \<noteq> [])"
| "regex_test r (c # cs) = (rests r (c # cs) \<noteq> [] \<or> regex_test r cs)"

definition email_regex :: regex where
  "email_regex =
     Seq (Plus NonSpace)
       (Seq (One (Lit 0x40))
         (Seq (Plus NonSpace)
           (Seq (One (Lit 0x2E)) (Plus NonSpace))))"

text \<open>The language of a pattern, to say what the matcher decides.\<close>

primrec regex_lang :: "regex \<Rightarrow> jsstring set" where
  "regex_lang (One a) = {p. \<exists>c. p = [c] \<and> atom_ok a c}"
| "regex_lang (Plus a) = {p. p \<noteq> [] \<and> list_all (atom_ok a) p}"
| "regex_lang (Seq r1 r2) = {p. \<exists>p1 p2. p = p1 @ p2 \<and> p1 \<in> regex_lang r1 \<and> p2 \<in> regex_lang r2}"

subsection \<open>Component state and the render scope\<close>

record FormFields =
  name :: jsstring
  email :: jsstring
  password :: jsstring

text \<open>
  \<open>errors\<close> is an object whose keys are added by assignment: an association list in
  insertion order, so that \<open>Object.keys(errors).length\<close> is the length of its key list.
\<close>

type_synonym FormErrors = "(string \<times> string) list"

definition object_keys :: "FormErrors \<Rightarrow> string list" where
  "object_keys errors = map fst errors"

text \<open>
  The Redux slice \<open>state.auth\<close>. The type of the login status is left open: the
  component only ever asks the store to refresh it.
\<close>

record 'st auth_state =
  isLogin :: bool
  idToken :: "jsstring option"
  loginStatus :: 'st

datatype action = setIsLogin bool | setIdToken "jsstring option" | setLoginStatus

text \<open>
  Modelled from the spec: the reducers of \<open>store/authSlice\<close>, which is not among the
  sources. \<open>setIsLogin(b)\<close> stores the mode flag, \<open>setIdToken(t)\<close> stores the token
  (\<open>null\<close> is \<open>None\<close>), and \<open>setLoginStatus()\<close> refreshes the login status and
  nothing else. How the status is recomputed is not known, so the recomputation is the
  parameter \<open>refresh\<close>, which may read the whole slice.
\<close>

definition authReducer ::
  "('st auth_state \<Rightarrow> 'st) \<Rightarrow> action \<Rightarrow> 'st auth_state \<Rightarrow> 'st auth_state" where
  "authReducer refresh a s =
     (case a of
        setIsLogin b \<Rightarrow> s\<lparr>isLogin := b\<rparr>
      | setIdToken t \<Rightarrow> s\<lparr>idToken := t\<rparr>
      | setLoginStatus \<Rightarrow> s\<lparr>loginStatus := refresh s\<rparr>)"

text \<open>
  The functions imported from \<open>firebase/auth\<close>, as the calls the component makes. A
  rejection carries an error object, whose \<open>message\<close> the \<open>catch\<close> blocks read.
  Writing to local storage, dispatching and navigating are taken not to throw.
\<close>

datatype provider_call =
    signInUserEmailAndPass jsstring jsstring
  | createUserEmailAndPass jsstring jsstring
  | signInWithGoogle
  | signOutUser

datatype js_error = Error (message: jsstring)

text \<open>
  What the provider answers is not decided by the component: each awaited promise is
  an input of the handler that awaits it. A promise is fulfilled with a value, rejected
  with an error, or never settled. The values have the shapes the component reads:
  \<open>response.user.accessToken\<close> and \<open>result.token\<close>.
\<close>

datatype 'a promise = Resolved 'a | Rejected js_error | Pending

record user_info =
  accessToken :: jsstring

record signin_response =
  user :: user_info

record google_result =
  token :: jsstring

text \<open>
  An async handler ends by returning, by throwing (its promise is rejected), or it stays
  suspended at an \<open>await\<close> that never settles.
\<close>

datatype completion = Returned | Threw js_error | Suspended

record 'st world =
  auth :: "'st auth_state"
  authData :: FormFields
  formErrors :: FormErrors
  localStorage :: "string \<rightharpoonup> jsstring"
  navigated :: "string list"
  providerCalls :: "provider_call list"
  consoleErrors :: "(string \<times> jsstring) list"
  defaultPrevented :: bool

text \<open>
  The values a render closes over: \<open>useSelector\<close> reads \<open>state.auth.isLogin\<close> and
  \<open>useState\<close> returns the current form fields. The handlers built by that render see
  these values for as long as they run.
\<close>

record scope =
  sc_isLogin :: bool
  sc_authData :: FormFields

definition Auth :: "'st world \<Rightarrow> scope" where
  "Auth w = \<lparr>sc_isLogin = isLogin (auth w), sc_authData = authData w\<rparr>"

subsection \<open>Effects\<close>

definition dispatch :: "('st auth_state \<Rightarrow> 'st) \<Rightarrow> action \<Rightarrow> 'st world \<Rightarrow> 'st world" where
  "dispatch refresh a w = w\<lparr>auth := authReducer refresh a (auth w)\<rparr>"

definition setItem :: "string \<Rightarrow> jsstring \<Rightarrow> 'st world \<Rightarrow> 'st world" where
  "setItem k v w = w\<lparr>localStorage := (localStorage w)(k \<mapsto> v)\<rparr>"

definition removeItem :: "string \<Rightarrow> 'st world \<Rightarrow> 'st world" where
  "removeItem k w = w\<lparr>localStorage := (localStorage w)(k := None)\<rparr>"

definition navigate :: "string \<Rightarrow> 'st world \<Rightarrow> 'st world" where
  "navigate path w = w\<lparr>navigated := navigated w @ [path]\<rparr>"

definition console_error :: "string \<Rightarrow> jsstring \<Rightarrow> 'st world \<Rightarrow> 'st world" where
  "console_error label msg w = w\<lparr>consoleErrors := consoleErrors w @ [(label, msg)]\<rparr>"

definition setFormErrors :: "FormErrors \<Rightarrow> 'st world \<Rightarrow> 'st world" where
  "setFormErrors errors w = w\<lparr>formErrors := errors\<rparr>"

definition preventDefault :: "'st world \<Rightarrow> 'st world" where
  "preventDefault w = w\<lparr>defaultPrevented := True\<rparr>"

definition invoke :: "provider_call \<Rightarrow> 'st world \<Rightarrow> 'st world" where
  "invoke c w = w\<lparr>providerCalls := providerCalls w @ [c]\<rparr>"

subsection \<open>The handlers\<close>

text \<open>\<open>loginHandler\<close> (lines 29 to 40). It has no \<open>try\<close>: a rejection leaves it as a throw.\<close>

definition loginHandler ::
  "('st auth_state \<Rightarrow> 'st) \<Rightarrow> signin_response promise \<Rightarrow> jsstring \<Rightarrow> jsstring \<Rightarrow>
   'st world \<Rightarrow> completion \<times> 'st world" where
  "loginHandler refresh signin em pw w =
     (let w1 = invoke (signInUserEmailAndPass em pw) w in
      case signin of
        Pending \<Rightarrow> (Suspended, w1)
      | Rejected err \<Rightarrow> (Threw err, w1)
      | Resolved response \<Rightarrow>
          (let tok = accessToken (user response);
               w2 = setItem ''idToken'' tok w1;
               w3 = dispatch refresh (setIdToken (Some tok)) w2;
               w4 = dispatch refresh setLoginStatus w3;
               w5 = navigate ''/home'' w4
           in (Returned, w5)))"

text \<open>
  \<open>validateForm\<close> (lines 49 to 70). \<open>validation_errors\<close> is the value of the local
  \<open>errors\<close> when line 68 is reached; the three \<open>if\<close> statements run one after the
  other, each on the object the previous one left.
\<close>

definition validation_errors :: "scope \<Rightarrow> FormErrors" where
  "validation_errors sc =
     (let errors = [];
          errors =
            (if email (sc_authData sc) = []
             then AList.update ''email'' ''Email is required.'' errors
             else if \<not> regex_test email_regex (email (sc_authData sc))
             then AList.update ''email'' ''Email is invalid.'' errors
             else errors);
          errors =
            (if password (sc_authData sc) = []
             then AList.update ''password'' ''Password is required.'' errors
             else if length (password (sc_authData sc)) < 6
             then AList.update ''password'' ''Password must be at least 6 characters.'' errors
             else errors);
          errors =
            (if \<not> sc_isLogin sc \<and> name (sc_authData sc) = []
             then AList.update ''name'' ''Full name is required for signup.'' errors
             else errors)
      in errors)"

definition validateForm :: "scope \<Rightarrow> 'st world \<Rightarrow> bool \<times> 'st world" where
  "validateForm sc w =
     (let errors = validation_errors sc;
          w1 = setFormErrors errors w
      in (length (object_keys errors) = 0, w1))"

text \<open>
  \<open>handleSubmit\<close> (lines 73 to 95). \<open>create\<close> and \<open>signin\<close> are the provider's
  answers to the two calls the handler may make. The \<open>catch\<close> logs and returns.
\<close>

definition handleSubmit ::
  "('st auth_state \<Rightarrow> 'st) \<Rightarrow> unit promise \<Rightarrow> signin_response promise \<Rightarrow> scope \<Rightarrow>
   'st world \<Rightarrow> completion \<times> 'st world" where
  "handleSubmit refresh create signin sc w =
     (let w0 = preventDefault w;
          (valid, w1) = validateForm sc w0
      in if \<not> valid then (Returned, w1)
         else
           (let em = email (sc_authData sc);
                pw = password (sc_authData sc);
                (c, w2) =
                  (if sc_isLogin sc then loginHandler refresh signin em pw w1
                   else
                     (let w1a = invoke (createUserEmailAndPass em pw) w1 in
                      case create of
                        Pending \<Rightarrow> (Suspended, w1a)
                      | Rejected err \<Rightarrow> (Threw err, w1a)
                      | Resolved account \<Rightarrow> loginHandler refresh signin em pw w1a))
            in case c of
                 Returned \<Rightarrow> (Returned, dispatch refresh (setIsLogin True) w2)
               | Threw err \<Rightarrow>
                   (Returned, console_error ''Authentication error:'' (message err) w2)
               | Suspended \<Rightarrow> (Suspended, w2)))"

text \<open>\<open>toggleAuthMode\<close> (lines 98 to 100) negates the flag its render read.\<close>

definition toggleAuthMode :: "('st auth_state \<Rightarrow> 'st) \<Rightarrow> scope \<Rightarrow> 'st world \<Rightarrow> 'st world" where
  "toggleAuthMode refresh sc w = dispatch refresh (setIsLogin (\<not> sc_isLogin sc)) w"

text \<open>\<open>loginWithGoogleHandler\<close> (lines 103 to 115).\<close>

definition loginWithGoogleHandler ::
  "('st auth_state \<Rightarrow> 'st) \<Rightarrow> google_result promise \<Rightarrow> 'st world \<Rightarrow> completion \<times> 'st world" where
  "loginWithGoogleHandler refresh google w =
     (let w1 = invoke signInWithGoogle w in
      case google of
        Pending \<Rightarrow> (Suspended, w1)
      | Rejected err \<Rightarrow> (Returned, console_error ''Google Sign-In Error:'' (message err) w1)
      | Resolved result \<Rightarrow>
          (let tok = token result;
               w2 = setItem ''idToken'' tok w1;
               w3 = dispatch refresh (setIdToken (Some tok)) w2;
               w4 = dispatch refresh setLoginStatus w3
           in (Returned, w4)))"

text \<open>\<open>handleSignOut\<close> (lines 118 to 127).\<close>

definition handleSignOut ::
  "('st auth_state \<Rightarrow> 'st) \<Rightarrow> unit promise \<Rightarrow> 'st world \<Rightarrow> completion \<times> 'st world" where
  "handleSignOut refresh signout w =
     (let w1 = invoke signOutUser w in
      case signout of
        Pending \<Rightarrow> (Suspended, w1)
      | Rejected err \<Rightarrow> (Returned, console_error ''Sign out error:'' (message err) w1)
      | Resolved u \<Rightarrow>
          (let w2 = removeItem ''idToken'' w1;
               w3 = dispatch refresh (setIdToken None) w2;
               w4 = dispatch refresh setLoginStatus w3
           in (Returned, w4)))"

subsection \<open>Example worlds\<close>

text \<open>
  The component right after mount, as lines 19 to 26 initialise it, over a store in
  signup mode with nobody logged in, and the same component once a signup form has been
  filled in with the name \<open>n\<close>, the email \<open>a@b.c\<close> and the password \<open>abcdef\<close>.
  \<open>has_token\<close> is one possible status: logged in exactly when a token is stored.
\<close>

definition fresh_world :: "bool world" where
  "fresh_world =
     \<lparr>auth = \<lparr>isLogin = False, idToken = None, loginStatus = False\<rparr>,
      authData = \<lparr>name = [], email = [], password = []\<rparr>,
      formErrors = [],
      localStorage = Map.empty,
      navigated = [],
      providerCalls = [],
      consoleErrors = [],
      defaultPrevented = False\<rparr>"

definition has_token :: "bool auth_state \<Rightarrow> bool" where
  "has_token s = (idToken s \<noteq> None)"

definition filled_world :: "bool world" where
  "filled_world =
     fresh_world\<lparr>authData :=
       \<lparr>name = [0x6E],
        email = [0x61, 0x40, 0x62, 0x2E, 0x63],
        password = [0x61, 0x62, 0x63, 0x64, 0x65, 0x66]\<rparr>\<rparr>"

section \<open>What the email pattern accepts\<close>

text \<open>
  The backtracking matcher finds a match exactly when some substring of the input belongs
  to the language of the pattern; for the email pattern that is a run of non-space code
  units, an \<open>@\<close>, a second run, a dot and a third run, anywhere in the input.
\<close>

lemma set_plus_rests:
  "set (plus_rests a s) = {v. \<exists>p. p \<noteq> [] \<and> list_all (atom_ok a) p \<and> s = p @ v}"
proof (induction s)
  case Nil
  then show ?case by simp
next
  case (Cons c cs)
  show ?case
  proof (cases "atom_ok a c")
    case False
    have "\<And>p v. p \<noteq> [] \<Longrightarrow> list_all (atom_ok a) p \<Longrightarrow> c # cs = p @ v \<Longrightarrow> False"
      using False by (case_tac p) auto
    with False show ?thesis by auto
  next
    case True
    show ?thesis
    proof (intro set_eqI iffI)
      fix v assume "v \<in> set (plus_rests a (c # cs))"
      with True have "v = cs \<or> v \<in> set (plus_rests a cs)" by auto
      then show "v \<in> {v. \<exists>p. p \<noteq> [] \<and> list_all (atom_ok a) p \<and> c # cs = p @ v}"
      proof
        assume "v = cs"
        with True have "[c] \<noteq> [] \<and> list_all (atom_ok a) [c] \<and> c # cs = [c] @ v" by simp
        then show ?thesis by blast
      next
        assume "v \<in> set (plus_rests a cs)"
        with Cons.IH obtain p where p: "p \<noteq> []" "list_all (atom_ok a) p" "cs = p @ v" by auto
        with True have "c # p \<noteq> [] \<and> list_all (atom_ok a) (c # p) \<and> c # cs = (c # p) @ v" by simp
        then show ?thesis by blast
      qed
    next
      fix v assume "v \<in> {v. \<exists>p. p \<noteq> [] \<and> list_all (atom_ok a) p \<and> c # cs = p @ v}"
      then obtain p where p: "p \<noteq> []" "list_all (atom_ok a) p" "c # cs = p @ v" by auto
      then obtain q where q: "p = c # q" "cs = q @ v" by (cases p) auto
      show "v \<in> set (plus_rests a (c # cs))"
      proof (cases "q = []")
        case True
        with q \<open>atom_ok a c\<close> show ?thesis by simp
      next
        case False
        with p q have "v \<in> set (plus_rests a cs)" using Cons.IH by auto
        with \<open>atom_ok a c\<close> show ?thesis by simp
      qed
    qed
  qed
qed

lemma set_rests: "set (rests r s) = {v. \<exists>p \<in> regex_lang r. s = p @ v}"
proof (induction r arbitrary: s)
  case (One a)
  show ?case by (cases s) auto
next
  case (Plus a)
  show ?case by (auto simp: set_plus_rests)
next
  case (Seq r1 r2)
  show ?case
  proof (intro set_eqI iffI)
    fix v assume "v \<in> set (rests (Seq r1 r2) s)"
    then obtain m where m: "m \<in> set (rests r1 s)" "v \<in> set (rests r2 m)" by auto
    from m(1) obtain p1 where p1: "p1 \<in> regex_lang r1" "s = p1 @ m"
      unfolding Seq.IH by blast
    from m(2) obtain p2 where p2: "p2 \<in> regex_lang r2" "m = p2 @ v"
      unfolding Seq.IH by blast
    have "p1 @ p2 \<in> regex_lang (Seq r1 r2)" using p1 p2 by auto
    moreover have "s = (p1 @ p2) @ v" using p1 p2 by simp
    ultimately show "v \<in> {v. \<exists>p \<in> regex_lang (Seq r1 r2). s = p @ v}" by blast
  next
    fix v assume "v \<in> {v. \<exists>p \<in> regex_lang (Seq r1 r2). s = p @ v}"
    then obtain p1 p2 where p: "p1 \<in> regex_lang r1" "p2 \<in> regex_lang r2" "s = (p1 @ p2) @ v"
      by auto
    have "p2 @ v \<in> set (rests r1 s)" unfolding Seq.IH using p by auto
    moreover have "v \<in> set (rests r2 (p2 @ v))" unfolding Seq.IH using p by auto
    ultimately show "v \<in> set (rests (Seq r1 r2) s)" by auto
  qed
qed

lemma regex_test_iff:
  "regex_test r s \<longleftrightarrow> (\<exists>u p v. p \<in> regex_lang r \<and> s = u @ p @ v)"
proof (induction s)
  case Nil
  have "rests r [] \<noteq> [] \<longleftrightarrow> set (rests r []) \<noteq> {}" by simp
  then show ?case by (auto simp: set_rests simp del: set_empty set_empty2)
next
  case (Cons c cs)
  have ne: "rests r (c # cs) \<noteq> [] \<longleftrightarrow> (\<exists>p v. p \<in> regex_lang r \<and> c # cs = p @ v)"
  proof -
    have "rests r (c # cs) \<noteq> [] \<longleftrightarrow> set (rests r (c # cs)) \<noteq> {}" by simp
    then show ?thesis by (auto simp: set_rests simp del: set_empty set_empty2)
  qed
  show ?case
  proof
    assume "regex_test r (c # cs)"
    then consider "rests r (c # cs) \<noteq> []" | "regex_test r cs" by auto
    then show "\<exists>u p v. p \<in> regex_lang r \<and> c # cs = u @ p @ v"
    proof cases
      case 1
      with ne obtain p v where "p \<in> regex_lang r" "c # cs = [] @ p @ v" by auto
      then show ?thesis by blast
    next
      case 2
      with Cons.IH obtain u p v where "p \<in> regex_lang r" "cs = u @ p @ v" by auto
      then have "p \<in> regex_lang r \<and> c # cs = (c # u) @ p @ v" by simp
      then show ?thesis by blast
    qed
  next
    assume "\<exists>u p v. p \<in> regex_lang r \<and> c # cs = u @ p @ v"
    then obtain u p v where upv: "p \<in> regex_lang r" "c # cs = u @ p @ v" by auto
    show "regex_test r (c # cs)"
    proof (cases u)
      case Nil
      with upv have "p \<in> regex_lang r \<and> c # cs = p @ v" by simp
      then have "rests r (c # cs) \<noteq> []" unfolding ne by blast
      then show ?thesis by simp
    next
      case (Cons d u')
      with upv have "cs = u' @ p @ v" by simp
      with upv Cons.IH have "regex_test r cs" by blast
      then show ?thesis by simp
    qed
  qed
qed

lemma atom_ok_NonSpace: "atom_ok NonSpace = (\<lambda>x. \<not> is_space x)"
  by (rule ext) simp

lemma regex_lang_SeqI:
  "p1 \<in> regex_lang r1 \<Longrightarrow> p2 \<in> regex_lang r2 \<Longrightarrow> p1 @ p2 \<in> regex_lang (Seq r1 r2)"
  by auto

lemma email_regex_lang:
  "p \<in> regex_lang email_regex \<longleftrightarrow>
     (\<exists>a b c. p = a @ [0x40] @ b @ [0x2E] @ c \<and> a \<noteq> [] \<and> b \<noteq> [] \<and> c \<noteq> [] \<and>
        list_all (\<lambda>x. \<not> is_space x) (a @ b @ c))"
proof
  assume "p \<in> regex_lang email_regex"
  then obtain a b c where
    "p = a @ [0x40] @ b @ [0x2E] @ c" "a \<noteq> []" "b \<noteq> []" "c \<noteq> []"
    "list_all (atom_ok NonSpace) a" "list_all (atom_ok NonSpace) b" "list_all (atom_ok NonSpace) c"
    by (auto simp: email_regex_def)
  then have "p = a @ [0x40] @ b @ [0x2E] @ c \<and> a \<noteq> [] \<and> b \<noteq> [] \<and> c \<noteq> [] \<and>
        list_all (\<lambda>x. \<not> is_space x) (a @ b @ c)"
    by (simp add: atom_ok_NonSpace)
  then show "\<exists>a b c. p = a @ [0x40] @ b @ [0x2E] @ c \<and> a \<noteq> [] \<and> b \<noteq> [] \<and> c \<noteq> [] \<and>
        list_all (\<lambda>x. \<not> is_space x) (a @ b @ c)"
    by (intro exI)
next
  assume "\<exists>a b c. p = a @ [0x40] @ b @ [0x2E] @ c \<and> a \<noteq> [] \<and> b \<noteq> [] \<and> c \<noteq> [] \<and>
        list_all (\<lambda>x. \<not> is_space x) (a @ b @ c)"
  then obtain a b c where p: "p = a @ [0x40] @ b @ [0x2E] @ c"
    and ne: "a \<noteq> []" "b \<noteq> []" "c \<noteq> []"
    and ns: "list_all (atom_ok NonSpace) a" "list_all (atom_ok NonSpace) b"
      "list_all (atom_ok NonSpace) c"
    by (auto simp: atom_ok_NonSpace)
  have a: "a \<in> regex_lang (Plus NonSpace)" using ne ns by simp
  have b: "b \<in> regex_lang (Plus NonSpace)" using ne ns by simp
  have c: "c \<in> regex_lang (Plus NonSpace)" using ne ns by simp
  have at: "[0x40] \<in> regex_lang (One (Lit 0x40))" by simp
  have dot: "[0x2E] \<in> regex_lang (One (Lit 0x2E))" by simp
  show "p \<in> regex_lang email_regex"
    unfolding p email_regex_def
    by (intro regex_lang_SeqI a b c at dot)
qed

lemma email_test_iff:
  "regex_test email_regex s \<longleftrightarrow>
     (\<exists>u a b c v. s = u @ a @ [0x40] @ b @ [0x2E] @ c @ v \<and> a \<noteq> [] \<and> b \<noteq> [] \<and> c \<noteq> [] \<and>
        list_all (\<lambda>x. \<not> is_space x) (a @ b @ c))"
proof
  assume "regex_test email_regex s"
  then obtain u p v where "p \<in> regex_lang email_regex" "s = u @ p @ v"
    unfolding regex_test_iff by blast
  then obtain a b c where "s = u @ (a @ [0x40] @ b @ [0x2E] @ c) @ v \<and> a \<noteq> [] \<and> b \<noteq> [] \<and>
      c \<noteq> [] \<and> list_all (\<lambda>x. \<not> is_space x) (a @ b @ c)"
    unfolding email_regex_lang by blast
  then have "s = u @ a @ [0x40] @ b @ [0x2E] @ c @ v \<and> a \<noteq> [] \<and> b \<noteq> [] \<and> c \<noteq> [] \<and>
        list_all (\<lambda>x. \<not> is_space x) (a @ b @ c)"
    by simp
  then show "\<exists>u a b c v. s = u @ a @ [0x40] @ b @ [0x2E] @ c @ v \<and> a \<noteq> [] \<and> b \<noteq> [] \<and>
      c \<noteq> [] \<and> list_all (\<lambda>x. \<not> is_space x) (a @ b @ c)"
    by (intro exI)
next
  assume "\<exists>u a b c v. s = u @ a @ [0x40] @ b @ [0x2E] @ c @ v \<and> a \<noteq> [] \<and> b \<noteq> [] \<and>
      c \<noteq> [] \<and> list_all (\<lambda>x. \<not> is_space x) (a @ b @ c)"
  then obtain u a b c v where s: "s = u @ a @ [0x40] @ b @ [0x2E] @ c @ v"
    and rest: "a \<noteq> [] \<and> b \<noteq> [] \<and> c \<noteq> [] \<and> list_all (\<lambda>x. \<not> is_space x) (a @ b @ c)"
    by blast
  have "a @ [0x40] @ b @ [0x2E] @ c \<in> regex_lang email_regex"
    unfolding email_regex_lang using rest by (intro exI conjI) auto
  moreover have "s = u @ (a @ [0x40] @ b @ [0x2E] @ c) @ v" using s by simp
  ultimately show "regex_test email_regex s"
    unfolding regex_test_iff by (intro exI conjI)
qed

section \<open>The validator\<close>

lemma formErrors_validateForm:
  "formErrors (snd (validateForm sc w)) = validation_errors sc"
  by (simp add: validateForm_def setFormErrors_def Let_def)

lemma validation_errors_email:
  "map_of (validation_errors sc) ''email'' =
     (if email (sc_authData sc) = [] then Some ''Email is required.''
      else if \<not> regex_test email_regex (email (sc_authData sc)) then Some ''Email is invalid.''
      else None)"
  by (simp add: validation_errors_def Let_def update_conv')

lemma validation_errors_password:
  "map_of (validation_errors sc) ''password'' =
     (if password (sc_authData sc) = [] then Some ''Password is required.''
      else if length (password (sc_authData sc)) < 6
      then Some ''Password must be at least 6 characters.''
      else None)"
  by (simp add: validation_errors_def Let_def update_conv')

lemma validation_errors_name:
  "map_of (validation_errors sc) ''name'' =
     (if \<not> sc_isLogin sc \<and> name (sc_authData sc) = []
      then Some ''Full name is required for signup.'' else None)"
  by (simp add: validation_errors_def Let_def update_conv')

text \<open>
  C3: for every form, an empty email gives the entry \<open>email\<close> with the message
  "Email is required."; a non-empty email in which the pattern \<open>\S+@\S+\.\S+\<close> finds no
  match gives the entry \<open>email\<close> with the message "Email is invalid."; any other email
  gives no \<open>email\<close> entry. The error mapping is the one the validator stores.
\<close>

theorem validateForm_email:
  "(email (sc_authData sc) = [] \<longrightarrow>
      map_of (formErrors (snd (validateForm sc w))) ''email'' = Some ''Email is required.'') \<and>
   (email (sc_authData sc) \<noteq> [] \<and>
    \<not> (\<exists>u a b c v. email (sc_authData sc) = u @ a @ [0x40] @ b @ [0x2E] @ c @ v \<and>
          a \<noteq> [] \<and> b \<noteq> [] \<and> c \<noteq> [] \<and> list_all (\<lambda>x. \<not> is_space x) (a @ b @ c)) \<longrightarrow>
      map_of (formErrors (snd (validateForm sc w))) ''email'' = Some ''Email is invalid.'') \<and>
   (email (sc_authData sc) \<noteq> [] \<and>
    (\<exists>u a b c v. email (sc_authData sc) = u @ a @ [0x40] @ b @ [0x2E] @ c @ v \<and>
          a \<noteq> [] \<and> b \<noteq> [] \<and> c \<noteq> [] \<and> list_all (\<lambda>x. \<not> is_space x) (a @ b @ c)) \<longrightarrow>
      map_of (formErrors (snd (validateForm sc w))) ''email'' = None)"
  unfolding formErrors_validateForm validation_errors_email email_test_iff [symmetric]
  by simp

text \<open>The three cases at the emails \<open>""\<close>, \<open>"bad"\<close> and \<open>"a@b.c"\<close>.\<close>

theorem validateForm_email_witness:
  "map_of (formErrors (snd (validateForm
      \<lparr>sc_isLogin = True, sc_authData = \<lparr>name = [], email = [], password = []\<rparr>\<rparr>
      fresh_world))) ''email'' = Some ''Email is required.'' \<and>
   map_of (formErrors (snd (validateForm
      \<lparr>sc_isLogin = True, sc_authData = \<lparr>name = [], email = [0x62, 0x61, 0x64], password = []\<rparr>\<rparr>
      fresh_world))) ''email'' = Some ''Email is invalid.'' \<and>
   map_of (formErrors (snd (validateForm
      \<lparr>sc_isLogin = True,
        sc_authData = \<lparr>name = [], email = [0x61, 0x40, 0x62, 0x2E, 0x63], password = []\<rparr>\<rparr>
      fresh_world))) ''email'' = None"
proof -
  have bad: "\<not> (\<exists>u a b c v. [0x62, 0x61, 0x64 :: 16 word] = u @ a @ [0x40] @ b @ [0x2E] @ c @ v \<and>
      a \<noteq> [] \<and> b \<noteq> [] \<and> c \<noteq> [] \<and> list_all (\<lambda>x. \<not> is_space x) (a @ b @ c))"
    unfolding email_test_iff [symmetric] by (simp add: email_regex_def is_space_def)
  have good: "\<exists>u a b c v. [0x61, 0x40, 0x62, 0x2E, 0x63 :: 16 word] = u @ a @ [0x40] @ b @ [0x2E] @ c @ v \<and>
      a \<noteq> [] \<and> b \<noteq> [] \<and> c \<noteq> [] \<and> list_all (\<lambda>x. \<not> is_space x) (a @ b @ c)"
    unfolding email_test_iff [symmetric] by (simp add: email_regex_def is_space_def)
  show ?thesis
    using bad good
      validateForm_email [of "\<lparr>sc_isLogin = True, sc_authData = \<lparr>name = [], email = [], password = []\<rparr>\<rparr>" fresh_world]
      validateForm_email [of "\<lparr>sc_isLogin = True, sc_authData = \<lparr>name = [], email = [0x62, 0x61, 0x64], password = []\<rparr>\<rparr>" fresh_world]
      validateForm_email [of "\<lparr>sc_isLogin = True, sc_authData = \<lparr>name = [], email = [0x61, 0x40, 0x62, 0x2E, 0x63], password = []\<rparr>\<rparr>" fresh_world]
    by simp
qed

text \<open>
  C4: for every form, a password of fewer than 6 code units, the empty one included,
  gives a \<open>password\<close> entry, and a password of 6 code units or more gives none.
\<close>

theorem validateForm_password:
  "(length (password (sc_authData sc)) < 6 \<longrightarrow>
      map_of (formErrors (snd (validateForm sc w))) ''password'' \<noteq> None) \<and>
   (6 \<le> length (password (sc_authData sc)) \<longrightarrow>
      map_of (formErrors (snd (validateForm sc w))) ''password'' = None)"
  unfolding formErrors_validateForm validation_errors_password
  by auto

text \<open>The two cases at the passwords \<open>"12345"\<close> and \<open>"abcdef"\<close>.\<close>

theorem validateForm_password_witness:
  "map_of (formErrors (snd (validateForm
      \<lparr>sc_isLogin = True,
        sc_authData = \<lparr>name = [], email = [], password = [0x31, 0x32, 0x33, 0x34, 0x35]\<rparr>\<rparr>
      fresh_world))) ''password'' \<noteq> None \<and>
   map_of (formErrors (snd (validateForm
      \<lparr>sc_isLogin = True,
        sc_authData = \<lparr>name = [], email = [], password = [0x61, 0x62, 0x63, 0x64, 0x65, 0x66]\<rparr>\<rparr>
      fresh_world))) ''password'' = None"
  using
    validateForm_password [of "\<lparr>sc_isLogin = True,
        sc_authData = \<lparr>name = [], email = [], password = [0x31, 0x32, 0x33, 0x34, 0x35]\<rparr>\<rparr>" fresh_world]
    validateForm_password [of "\<lparr>sc_isLogin = True,
        sc_authData = \<lparr>name = [], email = [], password = [0x61, 0x62, 0x63, 0x64, 0x65, 0x66]\<rparr>\<rparr>" fresh_world]
  by simp

text \<open>
  C5: in signup mode an empty name gives a \<open>name\<close> entry; in login mode there is no
  \<open>name\<close> entry, whatever the name is.
\<close>

theorem validateForm_name:
  "(\<not> sc_isLogin sc \<and> name (sc_authData sc) = [] \<longrightarrow>
      map_of (formErrors (snd (validateForm sc w))) ''name'' \<noteq> None) \<and>
   (sc_isLogin sc \<longrightarrow> map_of (formErrors (snd (validateForm sc w))) ''name'' = None)"
  unfolding formErrors_validateForm validation_errors_name
  by simp

text \<open>The empty name, in signup mode and in login mode.\<close>

theorem validateForm_name_witness:
  "map_of (formErrors (snd (validateForm
      \<lparr>sc_isLogin = False, sc_authData = \<lparr>name = [], email = [], password = []\<rparr>\<rparr>
      fresh_world))) ''name'' \<noteq> None \<and>
   map_of (formErrors (snd (validateForm
      \<lparr>sc_isLogin = True, sc_authData = \<lparr>name = [], email = [], password = []\<rparr>\<rparr>
      fresh_world))) ''name'' = None"
  using
    validateForm_name [of "\<lparr>sc_isLogin = False, sc_authData = \<lparr>name = [], email = [], password = []\<rparr>\<rparr>" fresh_world]
    validateForm_name [of "\<lparr>sc_isLogin = True, sc_authData = \<lparr>name = [], email = [], password = []\<rparr>\<rparr>" fresh_world]
  by simp

text \<open>
  C7, as amended: validation has exactly one effect. It replaces the stored FormErrors by
  the mapping it has just computed from the form fields and the mode flag, and leaves
  every other part of the component and global state as it was; the verdict it returns is
  true exactly when that mapping is empty.
\<close>

theorem validateForm_frame:
  "snd (validateForm sc w) = w\<lparr>formErrors := validation_errors sc\<rparr> \<and>
   fst (validateForm sc w) = (validation_errors sc = [])"
  by (simp add: validateForm_def setFormErrors_def object_keys_def Let_def)

text \<open>
  C7, as stated, asks that the stored FormErrors stay unchanged. Submitting the freshly
  mounted form, whose stored mapping is empty, stores a non-empty one (line 68).
\<close>

theorem validateForm_changes_formErrors:
  "formErrors (snd (validateForm (Auth fresh_world) fresh_world)) \<noteq> formErrors fresh_world"
  by (simp add: validateForm_def setFormErrors_def validation_errors_def Auth_def
      fresh_world_def Let_def)

section \<open>The auth bridge\<close>

lemmas effect_defs =
  dispatch_def authReducer_def setItem_def removeItem_def navigate_def console_error_def
  setFormErrors_def preventDefault_def invoke_def

text \<open>
  C1: for every token \<open>T\<close>, when the sign-in call of \<open>loginHandler\<close> resolves with a
  response whose \<open>user.accessToken\<close> is \<open>T\<close>, the handler returns, local storage holds
  \<open>T\<close> under \<open>idToken\<close>, the store's token is \<open>T\<close>, the login status is the one
  recomputed from the store that holds \<open>T\<close>, and \<open>/home\<close> has been navigated to.
\<close>

theorem loginHandler_resolved:
  "fst (loginHandler refresh (Resolved \<lparr>user = \<lparr>accessToken = T\<rparr>\<rparr>) em pw w) = Returned \<and>
   localStorage (snd (loginHandler refresh (Resolved \<lparr>user = \<lparr>accessToken = T\<rparr>\<rparr>) em pw w))
     ''idToken'' = Some T \<and>
   idToken (auth (snd (loginHandler refresh (Resolved \<lparr>user = \<lparr>accessToken = T\<rparr>\<rparr>) em pw w)))
     = Some T \<and>
   loginStatus (auth (snd (loginHandler refresh (Resolved \<lparr>user = \<lparr>accessToken = T\<rparr>\<rparr>) em pw w)))
     = refresh ((auth w)\<lparr>idToken := Some T\<rparr>) \<and>
   navigated (snd (loginHandler refresh (Resolved \<lparr>user = \<lparr>accessToken = T\<rparr>\<rparr>) em pw w))
     = navigated w @ [''/home'']"
  by (simp add: loginHandler_def effect_defs Let_def)

text \<open>
  C2: for every form and mode flag for which validation stores a non-empty error mapping,
  \<open>handleSubmit\<close> returns without any provider call, whatever the provider would have
  answered, and leaves local storage, the store's token and the mode flag as they were.
\<close>

theorem handleSubmit_invalid:
  assumes "formErrors (snd (validateForm sc w)) \<noteq> []"
  shows "fst (handleSubmit refresh create signin sc w) = Returned \<and>
    providerCalls (snd (handleSubmit refresh create signin sc w)) = providerCalls w \<and>
    localStorage (snd (handleSubmit refresh create signin sc w)) = localStorage w \<and>
    idToken (auth (snd (handleSubmit refresh create signin sc w))) = idToken (auth w) \<and>
    isLogin (auth (snd (handleSubmit refresh create signin sc w))) = isLogin (auth w)"
proof -
  have "validation_errors sc \<noteq> []"
    using assms by (simp add: formErrors_validateForm)
  then have "handleSubmit refresh create signin sc w =
      (Returned, setFormErrors (validation_errors sc) (preventDefault w))"
    by (simp add: handleSubmit_def validateForm_def object_keys_def Let_def)
  then show ?thesis
    by (simp add: setFormErrors_def preventDefault_def)
qed

text \<open>Submitting the freshly mounted, empty form.\<close>

theorem handleSubmit_invalid_witness:
  "formErrors (snd (validateForm (Auth fresh_world) fresh_world)) \<noteq> [] \<and>
   fst (handleSubmit has_token Pending Pending (Auth fresh_world) fresh_world) = Returned \<and>
   providerCalls (snd (handleSubmit has_token Pending Pending (Auth fresh_world) fresh_world)) = [] \<and>
   localStorage (snd (handleSubmit has_token Pending Pending (Auth fresh_world) fresh_world)) ''idToken'' = None \<and>
   idToken (auth (snd (handleSubmit has_token Pending Pending (Auth fresh_world) fresh_world))) = None \<and>
   isLogin (auth (snd (handleSubmit has_token Pending Pending (Auth fresh_world) fresh_world))) = False"
proof -
  have h: "formErrors (snd (validateForm (Auth fresh_world) fresh_world)) \<noteq> []"
    by (simp add: validateForm_def setFormErrors_def validation_errors_def Auth_def
        fresh_world_def Let_def)
  show ?thesis
    using h handleSubmit_invalid [OF h, of has_token Pending Pending]
    by (simp add: fresh_world_def)
qed

text \<open>
  C6: for every submission that passes validation, if every provider call of its branch
  is fulfilled (sign-in in login mode; account creation and then sign-in in signup mode),
  the handler returns with the mode flag true, whatever the flag was before.
\<close>

theorem handleSubmit_success:
  assumes "fst (validateForm sc w)"
    and "sc_isLogin sc \<or> create = Resolved ()"
    and "signin = Resolved response"
  shows "fst (handleSubmit refresh create signin sc w) = Returned \<and>
    isLogin (auth (snd (handleSubmit refresh create signin sc w))) = True"
proof -
  have valid: "validation_errors sc = []"
    using assms(1) by (simp add: validateForm_def object_keys_def Let_def)
  show ?thesis
  proof (cases "sc_isLogin sc")
    case True
    then show ?thesis
      using valid assms(3)
      by (simp add: handleSubmit_def validateForm_def object_keys_def loginHandler_def
          effect_defs Let_def)
  next
    case False
    with assms(2) have "create = Resolved ()" by simp
    then show ?thesis
      using False valid assms(3)
      by (simp add: handleSubmit_def validateForm_def object_keys_def loginHandler_def
          effect_defs Let_def)
  qed
qed

text \<open>A successful signup: the flag is false before the submission and true after it.\<close>

theorem handleSubmit_success_witness:
  "\<not> sc_isLogin (Auth filled_world) \<and> \<not> isLogin (auth filled_world) \<and>
   fst (validateForm (Auth filled_world) filled_world) \<and>
   fst (handleSubmit has_token (Resolved ()) (Resolved \<lparr>user = \<lparr>accessToken = [0x54]\<rparr>\<rparr>)
          (Auth filled_world) filled_world) = Returned \<and>
   isLogin (auth (snd (handleSubmit has_token (Resolved ())
          (Resolved \<lparr>user = \<lparr>accessToken = [0x54]\<rparr>\<rparr>) (Auth filled_world) filled_world)))"
proof -
  have v: "fst (validateForm (Auth filled_world) filled_world)"
    by (simp add: validateForm_def object_keys_def validation_errors_def Auth_def
        filled_world_def fresh_world_def email_regex_def is_space_def Let_def)
  have m: "\<not> sc_isLogin (Auth filled_world) \<and> \<not> isLogin (auth filled_world)"
    by (simp add: Auth_def filled_world_def fresh_world_def)
  have c: "sc_isLogin (Auth filled_world) \<or> Resolved () = Resolved ()"
    by simp
  show ?thesis
    using v m handleSubmit_success [OF v c refl, of has_token]
    by simp
qed

text \<open>
  C8: toggling the mode twice, the second toggle built by a render that has read the
  flag the first one stored, brings the mode flag back to its original value.
\<close>

theorem toggleAuthMode_twice:
  "isLogin (auth (toggleAuthMode refresh (Auth (toggleAuthMode refresh (Auth w) w))
      (toggleAuthMode refresh (Auth w) w))) = isLogin (auth w)"
  by (simp add: toggleAuthMode_def Auth_def dispatch_def authReducer_def)

text \<open>
  C9: from every state, when the provider's sign-out is rejected, \<open>handleSignOut\<close>
  catches the error and returns, it logs the message, and the \<open>idToken\<close> entry of local
  storage, the store's token and the login status are what they were before the call.
\<close>

theorem handleSignOut_rejected:
  "fst (handleSignOut refresh (Rejected err) w) = Returned \<and>
   localStorage (snd (handleSignOut refresh (Rejected err) w)) ''idToken''
     = localStorage w ''idToken'' \<and>
   idToken (auth (snd (handleSignOut refresh (Rejected err) w))) = idToken (auth w) \<and>
   loginStatus (auth (snd (handleSignOut refresh (Rejected err) w))) = loginStatus (auth w) \<and>
   consoleErrors (snd (handleSignOut refresh (Rejected err) w))
     = consoleErrors w @ [(''Sign out error:'', message err)]"
  by (simp add: handleSignOut_def effect_defs Let_def)

text \<open>
  C10: whatever the provider answers, \<open>loginWithGoogleHandler\<close> navigates nowhere. When
  the provider's result carries the token \<open>T\<close>, the handler stores \<open>T\<close> under
  \<open>idToken\<close>, publishes it to the store and refreshes the login status, as
  \<open>loginHandler\<close> does; only \<open>loginHandler\<close> then navigates to \<open>/home\<close>.
\<close>

theorem loginWithGoogleHandler_no_navigation:
  "navigated (snd (loginWithGoogleHandler refresh google w)) = navigated w \<and>
   fst (loginWithGoogleHandler refresh (Resolved \<lparr>token = T\<rparr>) w) = Returned \<and>
   localStorage (snd (loginWithGoogleHandler refresh (Resolved \<lparr>token = T\<rparr>) w)) ''idToken''
     = Some T \<and>
   idToken (auth (snd (loginWithGoogleHandler refresh (Resolved \<lparr>token = T\<rparr>) w))) = Some T \<and>
   loginStatus (auth (snd (loginWithGoogleHandler refresh (Resolved \<lparr>token = T\<rparr>) w)))
     = refresh ((auth w)\<lparr>idToken := Some T\<rparr>) \<and>
   navigated (snd (loginHandler refresh (Resolved \<lparr>user = \<lparr>accessToken = T\<rparr>\<rparr>) em pw w))
     = navigated w @ [''/home'']"
  by (simp add: loginWithGoogleHandler_def loginHandler_def effect_defs Let_def
      split: promise.split)

end
